theory Spec2Isabelle
  imports Complex_Main
begin

section \<open>Python values\<close>

text \<open>
  The client of \<^verbatim>\<open>phable_cli/phabricator.py\<close> passes untyped values around: request
  parameters (\<^verbatim>\<open>dict[str, Any]\<close>) and decoded JSON bodies. Both are modelled by one
  type of Python values. A \<^verbatim>\<open>dict\<close> with string keys is an association list in
  insertion order; a finite \<^verbatim>\<open>float\<close> is a rational number; sequences are Python
  lists (the only sequence type that \<^verbatim>\<open>isinstance(value, list)\<close> recognises).
\<close>

datatype pyval =
    PNone
  | PBool bool
  | PInt int
  | PFloat rat
  | PStr string
  | PList "pyval list"
  | PDict "(string \<times> pyval) list"

type_synonym pydict = "(string \<times> pyval) list"

text \<open>Truth value testing, as done by \<^verbatim>\<open>if x:\<close> and \<^verbatim>\<open>x or y\<close>.\<close>

fun truthy :: "pyval \<Rightarrow> bool" where
  "truthy PNone = False"
| "truthy (PBool b) = b"
| "truthy (PInt n) = (n \<noteq> 0)"
| "truthy (PFloat r) = (r \<noteq> 0)"
| "truthy (PStr s) = (s \<noteq> [])"
| "truthy (PList xs) = (xs \<noteq> [])"
| "truthy (PDict kvs) = (kvs \<noteq> [])"

text \<open>
  The exceptions that can leave the client. The two \<open>ApiRequestFailed\<close> constructors
  are both the plain \<^verbatim>\<open>Exception("API request failed: ...")\<close> of \<^verbatim>\<open>_make_request\<close>:
  one formats the underlying \<^verbatim>\<open>requests.RequestException\<close>, the other the decoded body.
\<close>

datatype request_exception =
    ConnectionError string
  | HTTPError int
  | JSONDecodeError

datatype error =
    KeyError pyval
  | TypeError
  | IndexError
  | ValueError string
  | ApiRequestFailed_cause request_exception
  | ApiRequestFailed_body pyval

text \<open>\<^verbatim>\<open>d[k] = v\<close> on an insertion-ordered dict: an existing key keeps its place.\<close>

primrec setitem :: "pydict \<Rightarrow> string \<Rightarrow> pyval \<Rightarrow> pydict" where
  "setitem [] k v = [(k, v)]"
| "setitem (p # ps) k v = (if fst p = k then (k, v) # ps else p # setitem ps k v)"

text \<open>\<^verbatim>\<open>d |= e\<close>: the items of \<open>e\<close> are stored into \<open>d\<close> one after the other.\<close>

primrec dict_ior :: "pydict \<Rightarrow> pydict \<Rightarrow> pydict" where
  "dict_ior d [] = d"
| "dict_ior d (p # ps) = dict_ior (setitem d (fst p) (snd p)) ps"

text \<open>\<^verbatim>\<open>x[key]\<close> with a string key: only a dict supports it.\<close>

fun getitem :: "pyval \<Rightarrow> string \<Rightarrow> error + pyval" where
  "getitem (PDict kvs) k =
     (case map_of kvs k of None \<Rightarrow> Inl (KeyError (PStr k)) | Some v \<Rightarrow> Inr v)"
| "getitem _ k = Inl TypeError"

text \<open>
  \<^verbatim>\<open>x[0]\<close>: the first element of a list, the first character of a string; a decoded
  JSON object has string keys only, so the key \<open>0\<close> is never present.
\<close>

fun getitem0 :: "pyval \<Rightarrow> error + pyval" where
  "getitem0 (PList []) = Inl IndexError"
| "getitem0 (PList (x # xs)) = Inr x"
| "getitem0 (PStr []) = Inl IndexError"
| "getitem0 (PStr (c # cs)) = Inr (PStr [c])"
| "getitem0 (PDict kvs) = Inl (KeyError (PInt 0))"
| "getitem0 _ = Inl TypeError"

text \<open>\<^verbatim>\<open>for x in v\<close>: the elements a loop visits, or \<open>TypeError\<close> when \<open>v\<close> is not iterable.\<close>

fun iterate :: "pyval \<Rightarrow> error + pyval list" where
  "iterate (PList xs) = Inr xs"
| "iterate (PDict kvs) = Inr (map (\<lambda>p. PStr (fst p)) kvs)"
| "iterate (PStr s) = Inr (map (\<lambda>c. PStr [c]) s)"
| "iterate _ = Inl TypeError"

text \<open>Sequencing of computations that may raise.\<close>

fun bind_err :: "error + 'a \<Rightarrow> ('a \<Rightarrow> error + 'b) \<Rightarrow> error + 'b" where
  "bind_err (Inl e) f = Inl e"
| "bind_err (Inr x) f = f x"

text \<open>\<^verbatim>\<open>str(n)\<close> for a loop index \<open>n\<close>, as the f-strings of the client format it.\<close>

definition digit_char :: "nat \<Rightarrow> char" where
  "digit_char d = ''0123456789'' ! d"

fun str_nat :: "nat \<Rightarrow> string" where
  "str_nat n = (if n < 10 then [digit_char n] else str_nat (n div 10) @ [digit_char (n mod 10)])"

declare str_nat.simps [simp del]

text \<open>\<^verbatim>\<open>s.rstrip("/")\<close>\<close>

definition rstrip_slash :: "string \<Rightarrow> string" where
  "rstrip_slash s = rev (dropWhile (\<lambda>c. c = CHR ''/'') (rev s))"

section \<open>The client and its environment\<close>

text \<open>
  \<^verbatim>\<open>PhabricatorClient\<close> keeps the base URL, the token and the timeout; its
  \<^verbatim>\<open>requests.Session\<close> is the channel to the remote service, which is modelled below.
\<close>

record client =
  base_url :: string
  token :: string
  timeout :: nat

text \<open>What \<^verbatim>\<open>session.post\<close> is called with.\<close>

record request =
  req_url :: string
  req_headers :: "(string \<times> string) list"
  req_data :: pydict
  req_timeout :: nat

text \<open>
  What \<^verbatim>\<open>session.post\<close> does: it raises a \<^verbatim>\<open>requests.RequestException\<close> (no connection,
  timeout), or returns a response with a status code and a body; the body is \<open>None\<close>
  when it is not JSON, and the decoded value otherwise.
\<close>

datatype http_outcome =
    Unreachable string
  | Response int "pyval option"

text \<open>
  The remote service is a parameter: the answer to the \<open>n\<close>-th request of the process
  may depend on \<open>n\<close> and on the request.
\<close>

type_synonym network = "nat \<Rightarrow> request \<Rightarrow> http_outcome"

text \<open>
  The mutable state around one client object: the requests sent so far, and the
  entries that \<^verbatim>\<open>functools.cache\<close> holds for \<^verbatim>\<open>show_user\<close> on this client.
\<close>

record world =
  sent :: "request list"
  show_user_cache :: "string \<rightharpoonup> pyval"

text \<open>
  \<^verbatim>\<open>__init__\<close> reads \<^verbatim>\<open>os.environ\<close>; a variable that is not set raises \<open>KeyError\<close>.
\<close>

definition environ_get :: "(string \<rightharpoonup> string) \<Rightarrow> string \<Rightarrow> error + string" where
  "environ_get env k = (case env k of None \<Rightarrow> Inl (KeyError (PStr k)) | Some v \<Rightarrow> Inr v)"

definition init :: "(string \<rightharpoonup> string) \<Rightarrow> error + client" where
  "init env =
     bind_err (environ_get env ''PHABRICATOR_URL'') (\<lambda>u.
     bind_err (environ_get env ''PHABRICATOR_TOKEN'') (\<lambda>t.
       let self = \<lparr>base_url = rstrip_slash u, token = t, timeout = 5\<rparr>
       in if base_url self = [] \<or> token self = []
          then Inl (ValueError
            ''PHABRICATOR_URL and PHABRICATOR_TOKEN must be set in your envionment'')
          else Inr self))"

text \<open>\<^verbatim>\<open>_first\<close>: the first element of a truthy result set; otherwise the method falls
  off its end and returns \<^verbatim>\<open>None\<close>.\<close>

definition first :: "pyval \<Rightarrow> error + pyval" where
  "first result_set = (if truthy result_set then getitem0 result_set else Inr PNone)"

section \<open>Requests\<close>

text \<open>
  The request that \<^verbatim>\<open>_make_request\<close> builds. \<^verbatim>\<open>params\<close> and \<^verbatim>\<open>headers\<close> default to
  \<^verbatim>\<open>None\<close>, and \<^verbatim>\<open>x or {}\<close> replaces \<^verbatim>\<open>None\<close> (and an empty dict) by a new empty dict.
\<close>

definition or_empty :: "'a list option \<Rightarrow> 'a list" where
  "or_empty x = (case x of None \<Rightarrow> [] | Some d \<Rightarrow> if d = [] then [] else d)"

primrec headers_ior :: "(string \<times> string) list \<Rightarrow> string \<Rightarrow> string \<Rightarrow> (string \<times> string) list" where
  "headers_ior [] k v = [(k, v)]"
| "headers_ior (p # ps) k v = (if fst p = k then (k, v) # ps else p # headers_ior ps k v)"

definition request_data :: "client \<Rightarrow> pydict option \<Rightarrow> pydict" where
  "request_data self params =
     dict_ior (setitem (setitem [] ''api.token'' (PStr (token self))) ''output'' (PStr ''json''))
       (or_empty params)"

definition build_request ::
  "client \<Rightarrow> string \<Rightarrow> pydict option \<Rightarrow> (string \<times> string) list option \<Rightarrow> request" where
  "build_request self path params headers =
     \<lparr>req_url = base_url self @ ''/api/'' @ path,
      req_headers = headers_ior (or_empty headers) ''Content-Type''
        ''application/x-www-form-urlencoded'',
      req_data = request_data self params,
      req_timeout = timeout self\<rparr>"

text \<open>
  \<^verbatim>\<open>response.raise_for_status()\<close> of the \<^verbatim>\<open>requests\<close> library raises \<open>HTTPError\<close> for the
  client and server error codes, 400 to 599.
\<close>

definition raise_for_status :: "int \<Rightarrow> error + unit" where
  "raise_for_status status =
     (if 400 \<le> status \<and> status < 600
      then Inl (ApiRequestFailed_cause (HTTPError status)) else Inr ())"

text \<open>
  What \<^verbatim>\<open>_make_request\<close> does with the outcome of \<^verbatim>\<open>session.post\<close>. Every
  \<^verbatim>\<open>RequestException\<close> raised inside the \<^verbatim>\<open>try\<close> is replaced by the generic exception;
  the exception for a truthy \<^verbatim>\<open>error_code\<close> and the errors of the subscript are not
  \<^verbatim>\<open>RequestException\<close>s and pass the \<^verbatim>\<open>except\<close> clause unchanged.
\<close>

definition check_response :: "http_outcome \<Rightarrow> error + pyval" where
  "check_response outcome =
     (case outcome of
        Unreachable msg \<Rightarrow> Inl (ApiRequestFailed_cause (ConnectionError msg))
      | Response status body \<Rightarrow>
          bind_err (raise_for_status status) (\<lambda>_.
            case body of
              None \<Rightarrow> Inl (ApiRequestFailed_cause JSONDecodeError)
            | Some resp_json \<Rightarrow>
                bind_err (getitem resp_json ''error_code'') (\<lambda>error_code.
                  if truthy error_code then Inl (ApiRequestFailed_body resp_json)
                  else Inr resp_json)))"

definition make_request ::
  "network \<Rightarrow> client \<Rightarrow> string \<Rightarrow> pydict option \<Rightarrow> (string \<times> string) list option \<Rightarrow>
   world \<Rightarrow> (error + pyval) \<times> world" where
  "make_request net self path params headers w =
     (let req = build_request self path params headers
      in (check_response (net (length (sent w)) req), w\<lparr>sent := sent w @ [req]\<rparr>))"

text \<open>\<^verbatim>\<open>m(...)["result"]["data"]\<close> and its variants, applied to the outcome of a request.\<close>

definition result_data :: "pyval \<Rightarrow> error + pyval" where
  "result_data body = bind_err (getitem body ''result'') (\<lambda>r. getitem r ''data'')"

definition then_err ::
  "(error + 'a) \<times> world \<Rightarrow> ('a \<Rightarrow> error + 'b) \<Rightarrow> (error + 'b) \<times> world" where
  "then_err m f = (bind_err (fst m) f, snd m)"

section \<open>Operations\<close>

text \<open>
  The keys that \<^verbatim>\<open>create_or_edit_task\<close> formats: \<^verbatim>\<open>f"transactions[{i}][type]"\<close>,
  \<^verbatim>\<open>f"transactions[{i}][value]"\<close> and \<^verbatim>\<open>f"transactions[{i}][value][{j}]"\<close>.
\<close>

definition type_key :: "nat \<Rightarrow> string" where
  "type_key i = ''transactions['' @ str_nat i @ ''][type]''"

definition value_key :: "nat \<Rightarrow> string" where
  "value_key i = ''transactions['' @ str_nat i @ ''][value]''"

definition subvalue_key :: "nat \<Rightarrow> nat \<Rightarrow> string" where
  "subvalue_key i j = ''transactions['' @ str_nat i @ ''][value]['' @ str_nat j @ '']''"

text \<open>The two loops of \<^verbatim>\<open>create_or_edit_task\<close>, over \<^verbatim>\<open>enumerate(...)\<close>.\<close>

fun encode_subvalues :: "nat \<Rightarrow> nat \<Rightarrow> pyval list \<Rightarrow> pydict \<Rightarrow> pydict" where
  "encode_subvalues i j [] raw_params = raw_params"
| "encode_subvalues i j (subvalue # rest) raw_params =
     encode_subvalues i (Suc j) rest (setitem raw_params (subvalue_key i j) subvalue)"

fun encode_value :: "nat \<Rightarrow> pyval \<Rightarrow> pydict \<Rightarrow> pydict" where
  "encode_value i (PList subvalues) raw_params = encode_subvalues i 0 subvalues raw_params"
| "encode_value i v raw_params = setitem raw_params (value_key i) v"

fun encode_transactions :: "nat \<Rightarrow> pydict \<Rightarrow> pydict \<Rightarrow> pydict" where
  "encode_transactions i [] raw_params = raw_params"
| "encode_transactions i (item # rest) raw_params =
     encode_transactions (Suc i) rest
       (encode_value i (snd item) (setitem raw_params (type_key i) (PStr (fst item))))"

text \<open>The \<^verbatim>\<open>raw_params\<close> of \<^verbatim>\<open>create_or_edit_task\<close>; \<^verbatim>\<open>if task_id:\<close> is false for
  \<^verbatim>\<open>None\<close> and for \<open>0\<close>.\<close>

definition task_raw_params :: "pydict \<Rightarrow> int option \<Rightarrow> pydict" where
  "task_raw_params params task_id =
     (let raw_params = encode_transactions 0 params []
      in case task_id of
           None \<Rightarrow> raw_params
         | Some t \<Rightarrow>
             if t \<noteq> 0 then setitem raw_params ''objectIdentifier'' (PInt t) else raw_params)"

definition create_or_edit_task ::
  "network \<Rightarrow> client \<Rightarrow> pydict \<Rightarrow> int option \<Rightarrow> world \<Rightarrow> (error + pyval) \<times> world" where
  "create_or_edit_task net self params task_id w =
     make_request net self ''maniphest.edit'' (Some (task_raw_params params task_id)) None w"

definition show_task :: "network \<Rightarrow> client \<Rightarrow> int \<Rightarrow> world \<Rightarrow> (error + pyval) \<times> world" where
  "show_task net self task_id w =
     then_err
       (make_request net self ''maniphest.search''
          (Some [(''constraints[ids][0]'', PInt task_id),
                 (''attachments[subscribers]'', PStr ''true''),
                 (''attachments[projects]'', PStr ''true''),
                 (''attachments[columns]'', PStr ''true'')]) None w)
       (\<lambda>body. bind_err (result_data body) getitem0)"

definition find_subtasks :: "network \<Rightarrow> client \<Rightarrow> int \<Rightarrow> world \<Rightarrow> (error + pyval) \<times> world" where
  "find_subtasks net self parent_id w =
     then_err
       (make_request net self ''maniphest.search''
          (Some [(''constraints[parentIDs][0]'', PInt parent_id)]) None w)
       result_data"

definition find_parent_task :: "network \<Rightarrow> client \<Rightarrow> int \<Rightarrow> world \<Rightarrow> (error + pyval) \<times> world" where
  "find_parent_task net self subtask_id w =
     then_err
       (make_request net self ''maniphest.search''
          (Some [(''constraints[subtaskIDs][0]'', PInt subtask_id)]) None w)
       (\<lambda>body. bind_err (result_data body) first)"

definition move_task_to_column ::
  "network \<Rightarrow> client \<Rightarrow> int \<Rightarrow> string \<Rightarrow> world \<Rightarrow> (error + pyval) \<times> world" where
  "move_task_to_column net self task_id column_phid w =
     create_or_edit_task net self [(''column'', PStr column_phid)] (Some task_id) w"

definition mark_task_as_resolved ::
  "network \<Rightarrow> client \<Rightarrow> int \<Rightarrow> world \<Rightarrow> (error + pyval) \<times> world" where
  "mark_task_as_resolved net self task_id w =
     create_or_edit_task net self [(''status'', PStr ''resolved'')] (Some task_id) w"

text \<open>
  \<^verbatim>\<open>show_user\<close> is wrapped by \<^verbatim>\<open>functools.cache\<close>: a stored result is returned without
  running the body; a result that the body returns is stored; an exception is not.
\<close>

definition show_user_body :: "network \<Rightarrow> client \<Rightarrow> string \<Rightarrow> world \<Rightarrow> (error + pyval) \<times> world" where
  "show_user_body net self phid w =
     then_err
       (make_request net self ''user.search''
          (Some [(''constraints[phids][0]'', PStr phid)]) None w)
       (\<lambda>body. bind_err (result_data body) first)"

definition show_user :: "network \<Rightarrow> client \<Rightarrow> string \<Rightarrow> world \<Rightarrow> (error + pyval) \<times> world" where
  "show_user net self phid w =
     (case show_user_cache w phid of
        Some user \<Rightarrow> (Inr user, w)
      | None \<Rightarrow>
          (case show_user_body net self phid w of
             (Inl e, w') \<Rightarrow> (Inl e, w')
           | (Inr user, w') \<Rightarrow>
               (Inr user, w'\<lparr>show_user_cache := (show_user_cache w')(phid \<mapsto> user)\<rparr>)))"

fun project_constraints :: "nat \<Rightarrow> string list \<Rightarrow> pydict \<Rightarrow> pydict" where
  "project_constraints i [] params = params"
| "project_constraints i (phid # rest) params =
     project_constraints (Suc i) rest
       (setitem params (''constraints[phids]['' @ str_nat i @ '']'') (PStr phid))"

definition show_projects ::
  "network \<Rightarrow> client \<Rightarrow> string list \<Rightarrow> world \<Rightarrow> (error + pyval) \<times> world" where
  "show_projects net self phids w =
     then_err
       (make_request net self ''project.search'' (Some (project_constraints 0 phids [])) None w)
       result_data"

definition current_user :: "network \<Rightarrow> client \<Rightarrow> world \<Rightarrow> (error + pyval) \<times> world" where
  "current_user net self w =
     then_err (make_request net self ''user.whoami'' None None w)
       (\<lambda>body. getitem body ''result'')"

definition find_user_by_username ::
  "network \<Rightarrow> client \<Rightarrow> string \<Rightarrow> world \<Rightarrow> (error + pyval) \<times> world" where
  "find_user_by_username net self username w =
     then_err
       (make_request net self ''user.search''
          (Some [(''constraints[usernames][0]'', PStr username)]) None w)
       (\<lambda>body. bind_err (result_data body) first)"

definition assign_task_to_user ::
  "network \<Rightarrow> client \<Rightarrow> int \<Rightarrow> pyval \<Rightarrow> world \<Rightarrow> (error + pyval) \<times> world" where
  "assign_task_to_user net self task_id user_phid w =
     create_or_edit_task net self [(''owner'', user_phid)] (Some task_id) w"

definition list_project_columns ::
  "network \<Rightarrow> client \<Rightarrow> string \<Rightarrow> world \<Rightarrow> (error + pyval) \<times> world" where
  "list_project_columns net self project_phid w =
     then_err
       (make_request net self ''project.column.search''
          (Some [(''constraints[projects][0]'', PStr project_phid)]) None w)
       result_data"

text \<open>
  The loop of \<^verbatim>\<open>get_project_current_milestone\<close>. \<^verbatim>\<open>and\<close> evaluates its right operand
  only when the left one is truthy; after the last column the method returns \<^verbatim>\<open>None\<close>.
\<close>

fun scan_columns :: "pyval list \<Rightarrow> error + pyval" where
  "scan_columns [] = Inr PNone"
| "scan_columns (column # rest) =
     (case bind_err (getitem column ''fields'') (\<lambda>f. getitem f ''proxyPHID'') of
        Inl e \<Rightarrow> Inl e
      | Inr proxy \<Rightarrow>
          if truthy proxy then
            (case bind_err (getitem column ''fields'') (\<lambda>f. getitem f ''isHidden'') of
               Inl e \<Rightarrow> Inl e
             | Inr hidden \<Rightarrow> if \<not> truthy hidden then Inr column else scan_columns rest)
          else scan_columns rest)"

definition get_project_current_milestone ::
  "network \<Rightarrow> client \<Rightarrow> string \<Rightarrow> world \<Rightarrow> (error + pyval) \<times> world" where
  "get_project_current_milestone net self project_phid w =
     then_err (list_project_columns net self project_phid w)
       (\<lambda>columns. bind_err (iterate columns) scan_columns)"

text \<open>
  The columns that the loop of \<^verbatim>\<open>get_project_current_milestone\<close> can test without a
  \<open>KeyError\<close>, and the test "subproject proxy and not hidden" in the words of the
  specification.
\<close>

definition has_board_fields :: "pyval \<Rightarrow> bool" where
  "has_board_fields column =
     (case getitem column ''fields'' of
        Inl _ \<Rightarrow> False
      | Inr f \<Rightarrow>
          (case getitem f ''proxyPHID'' of
             Inl _ \<Rightarrow> False
           | Inr _ \<Rightarrow> (case getitem f ''isHidden'' of Inl _ \<Rightarrow> False | Inr _ \<Rightarrow> True)))"

definition proxy_not_hidden :: "pyval \<Rightarrow> bool" where
  "proxy_not_hidden column =
     (case getitem column ''fields'' of
        Inl _ \<Rightarrow> False
      | Inr f \<Rightarrow>
          (case getitem f ''proxyPHID'' of
             Inl _ \<Rightarrow> False
           | Inr proxy \<Rightarrow>
               truthy proxy \<and>
               (case getitem f ''isHidden'' of Inl _ \<Rightarrow> False | Inr hidden \<Rightarrow> \<not> truthy hidden)))"

definition first_or_none :: "pyval list \<Rightarrow> pyval" where
  "first_or_none xs = (case xs of [] \<Rightarrow> PNone | x # _ \<Rightarrow> x)"

section \<open>Example values\<close>

text \<open>A client, an initial state, remote services and response bodies to run the model on.\<close>

definition example_client :: client where
  "example_client =
     \<lparr>base_url = ''https://phabricator.example.org'', token = ''api-0123'', timeout = 5\<rparr>"

definition fresh_world :: world where
  "fresh_world = \<lparr>sent = [], show_user_cache = Map.empty\<rparr>"

definition answering :: "http_outcome \<Rightarrow> network" where
  "answering outcome n req = outcome"

definition failing_once :: "http_outcome \<Rightarrow> network" where
  "failing_once outcome n req = (if n = 0 then Unreachable ''timed out'' else outcome)"

definition conduit_result :: "pyval \<Rightarrow> pyval" where
  "conduit_result r = PDict [(''result'', r), (''error_code'', PNone), (''error_info'', PNone)]"

definition conduit_error :: pyval where
  "conduit_error =
     PDict [(''result'', PNone), (''error_code'', PStr ''ERR-INVALID-AUTH''),
            (''error_info'', PStr ''API token is not valid.'')]"

definition board_column :: "string \<Rightarrow> pyval \<Rightarrow> bool \<Rightarrow> pyval" where
  "board_column name proxy hidden =
     PDict [(''phid'', PStr name),
            (''fields'', PDict [(''proxyPHID'', proxy), (''isHidden'', PBool hidden)])]"

section \<open>Dictionaries and decimal strings\<close>

lemma map_of_setitem: "map_of (setitem d k v) = (map_of d)(k \<mapsto> v)"
  by (induction d) auto

lemma keys_setitem: "fst ` set (setitem d k v) = insert k (fst ` set d)"
  by (induction d) auto

lemma distinct_setitem: "distinct (map fst d) \<Longrightarrow> distinct (map fst (setitem d k v))"
  by (induction d) (auto simp: keys_setitem)

lemma map_of_dict_ior:
  "distinct (map fst e) \<Longrightarrow> map_of (dict_ior d e) = map_of d ++ map_of e"
proof (induction e arbitrary: d)
  case Nil
  then show ?case by simp
next
  case (Cons p ps)
  from Cons.prems have fresh: "map_of ps (fst p) = None"
    by (simp add: map_of_eq_None_iff)
  have "map_of (dict_ior d (p # ps)) = (map_of d)(fst p \<mapsto> snd p) ++ map_of ps"
    using Cons by (simp add: map_of_setitem)
  also have "\<dots> = map_of d ++ map_of (p # ps)"
    using fresh by (cases p) (auto simp: map_add_def fun_eq_iff split: option.splits)
  finally show ?case .
qed

lemma digit_char_neq: "d < 10 \<Longrightarrow> digit_char d \<notin> {CHR '']'', CHR ''[''}"
  unfolding digit_char_def
  by (auto simp: less_Suc_eq numeral_eq_Suc nth_Cons')

lemma digit_char_inj: "a < 10 \<Longrightarrow> b < 10 \<Longrightarrow> digit_char a = digit_char b \<Longrightarrow> a = b"
  unfolding digit_char_def
  by (auto simp: less_Suc_eq numeral_eq_Suc nth_Cons')

lemma str_nat_no_bracket: "CHR '']'' \<notin> set (str_nat n)"
proof (induction n rule: str_nat.induct)
  case (1 n)
  show ?case
  proof (cases "n < 10")
    case True
    then show ?thesis using digit_char_neq [of n] by (subst str_nat.simps) auto
  next
    case False
    then show ?thesis using 1 digit_char_neq [of "n mod 10"] by (subst str_nat.simps) auto
  qed
qed

lemma str_nat_nonempty: "str_nat n \<noteq> []"
  by (subst str_nat.simps) simp

lemma str_nat_inj: "str_nat n = str_nat m \<Longrightarrow> n = m"
proof (induction n arbitrary: m rule: str_nat.induct)
  case (1 n)
  show ?case
  proof (cases "n < 10")
    case True
    note n = this
    show ?thesis
    proof (cases "m < 10")
      case True
      with n 1(2) show ?thesis
        by (simp add: str_nat.simps [of n] str_nat.simps [of m] digit_char_inj)
    next
      case False
      with n 1(2) str_nat_nonempty [of "m div 10"] show ?thesis
        by (simp add: str_nat.simps [of n] str_nat.simps [of m])
    qed
  next
    case False
    note n = this
    show ?thesis
    proof (cases "m < 10")
      case True
      with n 1(2) str_nat_nonempty [of "n div 10"] show ?thesis
        by (simp add: str_nat.simps [of n] str_nat.simps [of m])
    next
      case False
      with n 1(2) have eq: "str_nat (n div 10) = str_nat (m div 10)"
        and d: "digit_char (n mod 10) = digit_char (m mod 10)"
        by (simp_all add: str_nat.simps [of n] str_nat.simps [of m])
      from 1(1) [OF n eq] have "n div 10 = m div 10" .
      moreover from d have "n mod 10 = m mod 10"
        by (rule digit_char_inj [rotated 2]) simp_all
      ultimately show ?thesis
        by (metis div_mult_mod_eq)
    qed
  qed
qed

lemma split_at_bracket:
  "CHR '']'' \<notin> set xs \<Longrightarrow> CHR '']'' \<notin> set xs' \<Longrightarrow>
   xs @ CHR '']'' # ys = xs' @ CHR '']'' # ys' \<Longrightarrow> xs = xs' \<and> ys = ys'"
proof (induction xs arbitrary: xs')
  case Nil
  then show ?case by (cases xs') auto
next
  case (Cons x xs)
  then show ?case by (cases xs') auto
qed

section \<open>The keys and loops of \<^verbatim>\<open>create_or_edit_task\<close>\<close>

lemma str_nat_eq_iff: "(str_nat n = str_nat m) = (n = m)"
  by (auto dest: str_nat_inj)

lemma type_key_eq: "(type_key i = type_key i') = (i = i')"
  using split_at_bracket [OF str_nat_no_bracket str_nat_no_bracket, of i "''[type]''" i' "''[type]''"]
  by (auto simp: type_key_def dest: str_nat_inj)

lemma value_key_eq: "(value_key i = value_key i') = (i = i')"
  using split_at_bracket [OF str_nat_no_bracket str_nat_no_bracket, of i "''[value]''" i' "''[value]''"]
  by (auto simp: value_key_def dest: str_nat_inj)

lemma subvalue_key_eq: "(subvalue_key i j = subvalue_key i' j') = (i = i' \<and> j = j')"
proof -
  have "str_nat j @ '']'' = str_nat j' @ '']'' \<Longrightarrow> j = j'"
    by (auto dest: str_nat_inj)
  then show ?thesis
    using split_at_bracket [OF str_nat_no_bracket str_nat_no_bracket,
        of i "''[value]['' @ str_nat j @ '']''" i' "''[value]['' @ str_nat j' @ '']''"]
    by (auto simp: subvalue_key_def dest: str_nat_inj)
qed

lemma type_key_neq_value: "type_key i \<noteq> value_key i'"
  using split_at_bracket [OF str_nat_no_bracket str_nat_no_bracket, of i "''[type]''" i' "''[value]''"]
  by (auto simp: type_key_def value_key_def)

lemma type_key_neq_subvalue: "type_key i \<noteq> subvalue_key i' j"
  using split_at_bracket [OF str_nat_no_bracket str_nat_no_bracket,
      of i "''[type]''" i' "''[value]['' @ str_nat j @ '']''"]
  by (auto simp: type_key_def subvalue_key_def)

lemma value_key_neq_subvalue: "value_key i \<noteq> subvalue_key i' j"
  using split_at_bracket [OF str_nat_no_bracket str_nat_no_bracket,
      of i "''[value]''" i' "''[value]['' @ str_nat j @ '']''"]
  by (auto simp: value_key_def subvalue_key_def)

lemmas key_simps = type_key_eq value_key_eq subvalue_key_eq
  type_key_neq_value type_key_neq_subvalue value_key_neq_subvalue
  type_key_neq_value [symmetric] type_key_neq_subvalue [symmetric]
  value_key_neq_subvalue [symmetric]

lemma subvalues_other:
  "(\<And>j. k \<noteq> subvalue_key i j) \<Longrightarrow> map_of (encode_subvalues i j0 vs d) k = map_of d k"
  by (induction vs arbitrary: j0 d) (auto simp: map_of_setitem)

lemma subvalues_below:
  "j < j0 \<Longrightarrow> map_of (encode_subvalues i j0 vs d) (subvalue_key i j) = map_of d (subvalue_key i j)"
proof (induction vs arbitrary: j0 d)
  case Nil
  then show ?case by simp
next
  case (Cons v vs)
  from Cons.prems have "j < Suc j0" and "j \<noteq> j0" by simp_all
  then show ?case
    using Cons.IH [of "Suc j0"] by (simp add: map_of_setitem key_simps)
qed

lemma subvalues_hit:
  "j < length vs \<Longrightarrow>
   map_of (encode_subvalues i j0 vs d) (subvalue_key i (j0 + j)) = Some (vs ! j)"
proof (induction vs arbitrary: j0 d j)
  case Nil
  then show ?case by simp
next
  case (Cons v vs)
  show ?case
  proof (cases j)
    case 0
    then show ?thesis
      using subvalues_below [of j0 "Suc j0" i vs] by (simp add: map_of_setitem key_simps)
  next
    case (Suc j')
    with Cons.prems have "j' < length vs" by simp
    from Cons.IH [OF this, of "Suc j0"] Suc show ?thesis by simp
  qed
qed

lemma value_other:
  "k \<noteq> value_key i \<Longrightarrow> (\<And>j. k \<noteq> subvalue_key i j) \<Longrightarrow>
   map_of (encode_value i v d) k = map_of d k"
  by (cases v) (simp_all add: map_of_setitem subvalues_other)

lemma transactions_other:
  "(\<And>i. i0 \<le> i \<Longrightarrow> k \<noteq> type_key i) \<Longrightarrow>
   (\<And>i. i0 \<le> i \<Longrightarrow> k \<noteq> value_key i) \<Longrightarrow>
   (\<And>i j. i0 \<le> i \<Longrightarrow> k \<noteq> subvalue_key i j) \<Longrightarrow>
   map_of (encode_transactions i0 ps d) k = map_of d k"
proof (induction ps arbitrary: i0 d)
  case Nil
  then show ?case by simp
next
  case (Cons p ps)
  have "map_of (encode_transactions i0 (p # ps) d) k =
        map_of (encode_value i0 (snd p) (setitem d (type_key i0) (PStr (fst p)))) k"
    using Cons.prems by simp (rule Cons.IH; simp)
  also have "\<dots> = map_of (setitem d (type_key i0) (PStr (fst p))) k"
    using Cons.prems(2) [of i0] Cons.prems(3) [of i0] by (intro value_other) simp_all
  also have "\<dots> = map_of d k"
    using Cons.prems(1) [of i0] by (simp add: map_of_setitem)
  finally show ?case .
qed

lemma transactions_sub:
  "n < length ps \<Longrightarrow> snd (ps ! n) = PList vs \<Longrightarrow> j < length vs \<Longrightarrow>
   map_of (encode_transactions i0 ps d) (subvalue_key (i0 + n) j) = Some (vs ! j)"
proof (induction ps arbitrary: i0 d n)
  case Nil
  then show ?case by simp
next
  case (Cons p ps)
  show ?case
  proof (cases n)
    case 0
    with Cons.prems have p: "snd p = PList vs" by simp
    have "map_of (encode_transactions i0 (p # ps) d) (subvalue_key i0 j)
        = map_of (encode_value i0 (snd p) (setitem d (type_key i0) (PStr (fst p))))
            (subvalue_key i0 j)"
      by simp (rule transactions_other; simp add: key_simps)
    also have "\<dots> = Some (vs ! j)"
      using subvalues_hit [OF Cons.prems(3), of i0 0] p by simp
    finally show ?thesis using 0 by simp
  next
    case (Suc n')
    with Cons.prems have "n' < length ps" "snd (ps ! n') = PList vs" by simp_all
    from Cons.IH [OF this Cons.prems(3), of "Suc i0"] Suc show ?thesis by simp
  qed
qed

lemma transactions_no_plain:
  "n < length ps \<Longrightarrow> snd (ps ! n) = PList vs \<Longrightarrow>
   map_of (encode_transactions i0 ps d) (value_key (i0 + n)) = map_of d (value_key (i0 + n))"
proof (induction ps arbitrary: i0 d n)
  case Nil
  then show ?case by simp
next
  case (Cons p ps)
  show ?case
  proof (cases n)
    case 0
    with Cons.prems have p: "snd p = PList vs" by simp
    have "map_of (encode_transactions i0 (p # ps) d) (value_key i0)
        = map_of (encode_value i0 (snd p) (setitem d (type_key i0) (PStr (fst p))))
            (value_key i0)"
      by simp (rule transactions_other; simp add: key_simps)
    also have "\<dots> = map_of d (value_key i0)"
      using p by (simp add: subvalues_other map_of_setitem key_simps)
    finally show ?thesis using 0 by simp
  next
    case (Suc n')
    with Cons.prems have n': "n' < length ps" "snd (ps ! n') = PList vs" by simp_all
    have "map_of (encode_transactions i0 (p # ps) d) (value_key (i0 + n))
        = map_of (encode_value i0 (snd p) (setitem d (type_key i0) (PStr (fst p))))
            (value_key (i0 + n))"
      using Cons.IH [OF n', of "Suc i0"] Suc by simp
    also have "\<dots> = map_of d (value_key (i0 + n))"
      using Suc by (subst value_other) (simp_all add: map_of_setitem key_simps)
    finally show ?thesis .
  qed
qed

lemma transactions_type:
  "n < length ps \<Longrightarrow>
   map_of (encode_transactions i0 ps d) (type_key (i0 + n)) = Some (PStr (fst (ps ! n)))"
proof (induction ps arbitrary: i0 d n)
  case Nil
  then show ?case by simp
next
  case (Cons p ps)
  show ?case
  proof (cases n)
    case 0
    have "map_of (encode_transactions i0 (p # ps) d) (type_key i0)
        = map_of (encode_value i0 (snd p) (setitem d (type_key i0) (PStr (fst p))))
            (type_key i0)"
      by simp (rule transactions_other; simp add: key_simps)
    also have "\<dots> = Some (PStr (fst p))"
      by (subst value_other) (simp_all add: map_of_setitem key_simps)
    finally show ?thesis using 0 by simp
  next
    case (Suc n')
    with Cons.prems have "n' < length ps" by simp
    from Cons.IH [OF this, of "Suc i0"] Suc show ?thesis by simp
  qed
qed

lemma distinct_subvalues:
  "distinct (map fst d) \<Longrightarrow> distinct (map fst (encode_subvalues i j vs d))"
  by (induction vs arbitrary: j d) (simp_all add: distinct_setitem)

lemma distinct_value: "distinct (map fst d) \<Longrightarrow> distinct (map fst (encode_value i v d))"
  by (cases v) (simp_all add: distinct_setitem distinct_subvalues)

lemma distinct_transactions:
  "distinct (map fst d) \<Longrightarrow> distinct (map fst (encode_transactions i ps d))"
  by (induction ps arbitrary: i d) (simp_all add: distinct_setitem distinct_value)

lemma distinct_task_raw_params: "distinct (map fst (task_raw_params params task_id))"
  by (simp add: task_raw_params_def Let_def distinct_setitem distinct_transactions
      split: option.splits)

lemma or_empty_Some: "or_empty (Some d) = d"
  by (simp add: or_empty_def)

lemma map_of_request_data:
  "distinct (map fst raw) \<Longrightarrow>
   map_of (request_data self (Some raw)) =
   map_of [(''api.token'', PStr (token self)), (''output'', PStr ''json'')] ++ map_of raw"
  by (simp add: request_data_def or_empty_Some map_of_dict_ior)

lemma last_sent_make_request:
  "last (sent (snd (make_request net self path params headers w))) =
   build_request self path params headers"
  by (simp add: make_request_def Let_def)

lemma create_or_edit_task_data:
  "req_data (last (sent (snd (create_or_edit_task net self params task_id w)))) =
   request_data self (Some (task_raw_params params task_id))"
  by (simp add: create_or_edit_task_def last_sent_make_request build_request_def)

lemma object_identifier_not_key:
  "''objectIdentifier'' \<noteq> type_key i" "''objectIdentifier'' \<noteq> value_key i"
  "''objectIdentifier'' \<noteq> subvalue_key i j"
  by (simp_all add: type_key_def value_key_def subvalue_key_def)

lemma raw_params_object_identifier:
  "map_of (task_raw_params params task_id) ''objectIdentifier'' =
   (case task_id of None \<Rightarrow> None | Some t \<Rightarrow> if t \<noteq> 0 then Some (PInt t) else None)"
proof -
  have "map_of (encode_transactions 0 params []) ''objectIdentifier'' = None"
    by (subst transactions_other) (simp_all add: object_identifier_not_key)
  then show ?thesis
    by (simp add: task_raw_params_def Let_def map_of_setitem split: option.splits)
qed

lemma raw_params_other:
  "k \<noteq> ''objectIdentifier'' \<Longrightarrow>
   map_of (task_raw_params params task_id) k = map_of (encode_transactions 0 params []) k"
  by (simp add: task_raw_params_def Let_def map_of_setitem split: option.splits)

lemma token_output_not_key:
  "subvalue_key i j \<noteq> ''api.token''" "subvalue_key i j \<noteq> ''output''"
  "value_key i \<noteq> ''api.token''" "value_key i \<noteq> ''output''"
  "subvalue_key i j \<noteq> ''objectIdentifier''" "value_key i \<noteq> ''objectIdentifier''"
  by (simp_all add: type_key_def value_key_def subvalue_key_def)

section \<open>Claims\<close>

text \<open>
  In the theorems below, "the request body" of an operation is the \<^verbatim>\<open>data\<close> mapping that
  \<^verbatim>\<open>_make_request\<close> hands to \<^verbatim>\<open>session.post\<close> for the last request the operation sent.
\<close>

text \<open>
  C4. When the value of the \<open>i\<close>-th entry of \<open>params\<close> is a list \<open>[v0, v1, ...]\<close>, the
  request body of \<^verbatim>\<open>create_or_edit_task\<close> maps \<open>transactions[i][value][j]\<close> to \<open>vj\<close> for
  each index \<open>j\<close> of the list, and has no plain \<open>transactions[i][value]\<close> entry.
\<close>

theorem create_or_edit_task_sequence_value:
  assumes "i < length params" and "snd (params ! i) = PList vs"
  shows "(\<forall>j<length vs.
            map_of (req_data (last (sent (snd (create_or_edit_task net self params task_id w)))))
              (''transactions['' @ str_nat i @ ''][value]['' @ str_nat j @ '']'') = Some (vs ! j))
       \<and> map_of (req_data (last (sent (snd (create_or_edit_task net self params task_id w)))))
              (''transactions['' @ str_nat i @ ''][value]'') = None"
proof -
  let ?data = "req_data (last (sent (snd (create_or_edit_task net self params task_id w))))"
  have data: "map_of ?data =
      map_of [(''api.token'', PStr (token self)), (''output'', PStr ''json'')]
        ++ map_of (task_raw_params params task_id)"
    by (simp only: create_or_edit_task_data map_of_request_data [OF distinct_task_raw_params])
  have sub: "map_of ?data (subvalue_key i j) = Some (vs ! j)" if "j < length vs" for j
    using transactions_sub [OF assms that, of 0 "[]"]
    by (simp add: data map_add_def raw_params_other token_output_not_key)
  have "map_of (encode_transactions 0 params []) (value_key i) = None"
    using transactions_no_plain [OF assms, of 0 "[]"] by simp
  then have plain: "map_of ?data (value_key i) = None"
    by (simp add: data map_add_def raw_params_other token_output_not_key)
  from sub plain show ?thesis
    by (simp add: subvalue_key_def value_key_def)
qed

text \<open>
  The example of the specification: \<^verbatim>\<open>{"subscribers": ["PHID-A", "PHID-B"]}\<close>.
\<close>

theorem create_or_edit_task_sequence_value_witness:
  "map_of (req_data (last (sent (snd (create_or_edit_task (answering (Unreachable ''down''))
      example_client [(''subscribers'', PList [PStr ''PHID-A'', PStr ''PHID-B''])] None
      fresh_world))))) ''transactions[0][value][0]'' = Some (PStr ''PHID-A'')
   \<and> map_of (req_data (last (sent (snd (create_or_edit_task (answering (Unreachable ''down''))
      example_client [(''subscribers'', PList [PStr ''PHID-A'', PStr ''PHID-B''])] None
      fresh_world))))) ''transactions[0][value][1]'' = Some (PStr ''PHID-B'')
   \<and> map_of (req_data (last (sent (snd (create_or_edit_task (answering (Unreachable ''down''))
      example_client [(''subscribers'', PList [PStr ''PHID-A'', PStr ''PHID-B''])] None
      fresh_world))))) ''transactions[0][value]'' = None"
proof -
  let ?params = "[(''subscribers'', PList [PStr ''PHID-A'', PStr ''PHID-B''])]"
  have i: "0 < length ?params" by simp
  have v: "snd (?params ! 0) = PList [PStr ''PHID-A'', PStr ''PHID-B'']" by simp
  have zero: "str_nat 0 = ''0''" and one: "str_nat (Suc 0) = ''1''"
    by (simp_all add: str_nat.simps digit_char_def)
  from create_or_edit_task_sequence_value [OF i v, of "answering (Unreachable ''down'')"
      example_client None fresh_world]
  show ?thesis
    by (simp add: All_less_Suc zero one)
qed

end
